theory Spec2Isabelle
  imports Complex_Main "HOL-Library.Sublist" "HOL-Library.Multiset"
begin

section \<open>Common ground: exceptions and the random source\<close>

text \<open>
  The program is the Python module \<^verbatim>\<open>web_automation_demo.py\<close>. Python floats are
  modelled as exact reals, Python integers as \<^typ>\<open>int\<close>, strings as byte strings.

  Exceptions are values. Every constructor below is a subclass of Python's
  \<^verbatim>\<open>Exception\<close>, so an \<^verbatim>\<open>except Exception\<close> clause (and a bare \<^verbatim>\<open>except\<close>) catches each
  of them.
\<close>

datatype exn =
    StaleElementReferenceException
  | NoAlertPresentException
  | WebDriverException
  | ValueError
  | IndexError
  | ZeroDivisionError

type_synonym 'a res = "exn + 'a"

definition bind_res :: "'a res \<Rightarrow> ('a \<Rightarrow> 'b res) \<Rightarrow> 'b res" where
  "bind_res m f = (case m of Inl e \<Rightarrow> Inl e | Inr v \<Rightarrow> f v)"

text \<open>
  The random source is the sequence of outcomes of successive calls of
  \<^verbatim>\<open>random.random()\<close>, each in the half-open interval from 0 to 1. The derived
  operations follow the standard library: \<^verbatim>\<open>uniform(a, b)\<close> is \<^verbatim>\<open>a + (b - a) * random()\<close>.
\<close>

type_synonym rng = "nat \<Rightarrow> real"

definition rng_ok :: "rng \<Rightarrow> bool" where
  "rng_ok r = (\<forall>i. 0 \<le> r i \<and> r i < 1)"

definition skip :: "nat \<Rightarrow> rng \<Rightarrow> rng" where
  "skip k r = (\<lambda>i. r (i + k))"

definition uniform :: "real \<Rightarrow> real \<Rightarrow> real \<Rightarrow> real" where
  "uniform a b u = a + (b - a) * u"

section \<open>Behaviour patterns and personas\<close>

datatype BehaviorPattern = CASUAL | FOCUSED | EXPLORER | SCANNER | RESEARCHER

record UserBehavior =
  pattern :: BehaviorPattern
  reading_speed :: real
  typing_speed :: real
  mouse_precision :: real
  attention_span :: real
  curiosity_level :: real

record persona_config =
  cfg_reading_speed :: real
  cfg_typing_speed :: real
  cfg_mouse_precision :: real
  cfg_attention_span :: real
  cfg_curiosity_level :: real

text \<open>
  \<^verbatim>\<open>generate_persona\<close> first builds the whole dictionary \<^verbatim>\<open>patterns\<close>: all 25 calls
  of \<^verbatim>\<open>random.uniform\<close> are made, in the order of the dictionary literal, whatever the
  requested pattern is. Draw \<open>i\<close> of the random source feeds the \<open>i\<close>-th call.
\<close>

definition patterns :: "rng \<Rightarrow> BehaviorPattern \<Rightarrow> persona_config" where
  "patterns r p = (case p of
     CASUAL \<Rightarrow> \<lparr> cfg_reading_speed = uniform 200 250 (r 0),
                 cfg_typing_speed = uniform 2 4 (r 1),
                 cfg_mouse_precision = uniform 0.6 0.8 (r 2),
                 cfg_attention_span = uniform 10 30 (r 3),
                 cfg_curiosity_level = uniform 0.3 0.5 (r 4) \<rparr>
   | FOCUSED \<Rightarrow> \<lparr> cfg_reading_speed = uniform 300 400 (r 5),
                 cfg_typing_speed = uniform 4 7 (r 6),
                 cfg_mouse_precision = uniform 0.8 0.95 (r 7),
                 cfg_attention_span = uniform 30 60 (r 8),
                 cfg_curiosity_level = uniform 0.1 0.3 (r 9) \<rparr>
   | EXPLORER \<Rightarrow> \<lparr> cfg_reading_speed = uniform 250 350 (r 10),
                 cfg_typing_speed = uniform 3 5 (r 11),
                 cfg_mouse_precision = uniform 0.5 0.7 (r 12),
                 cfg_attention_span = uniform 5 15 (r 13),
                 cfg_curiosity_level = uniform 0.7 0.9 (r 14) \<rparr>
   | SCANNER \<Rightarrow> \<lparr> cfg_reading_speed = uniform 400 500 (r 15),
                 cfg_typing_speed = uniform 5 8 (r 16),
                 cfg_mouse_precision = uniform 0.6 0.8 (r 17),
                 cfg_attention_span = uniform 3 10 (r 18),
                 cfg_curiosity_level = uniform 0.4 0.6 (r 19) \<rparr>
   | RESEARCHER \<Rightarrow> \<lparr> cfg_reading_speed = uniform 150 200 (r 20),
                 cfg_typing_speed = uniform 3 5 (r 21),
                 cfg_mouse_precision = uniform 0.7 0.9 (r 22),
                 cfg_attention_span = uniform 60 120 (r 23),
                 cfg_curiosity_level = uniform 0.6 0.8 (r 24) \<rparr>)"

definition generate_persona :: "rng \<Rightarrow> BehaviorPattern \<Rightarrow> UserBehavior \<times> rng" where
  "generate_persona r p =
     (let config = patterns r p in
      (\<lparr> pattern = p,
         reading_speed = cfg_reading_speed config,
         typing_speed = cfg_typing_speed config,
         mouse_precision = cfg_mouse_precision config,
         attention_span = cfg_attention_span config,
         curiosity_level = cfg_curiosity_level config \<rparr>,
       skip 25 r))"

text \<open>
  The documented intervals, pattern by pattern and field by field, written down
  independently of \<^const>\<open>patterns\<close>: reading speed, typing speed, mouse precision,
  attention span, curiosity level.
\<close>

datatype persona_field = ReadingSpeed | TypingSpeed | MousePrecision | AttentionSpan | Curiosity

fun documented_interval :: "BehaviorPattern \<Rightarrow> persona_field \<Rightarrow> real \<times> real" where
  "documented_interval CASUAL ReadingSpeed = (200, 250)"
| "documented_interval CASUAL TypingSpeed = (2, 4)"
| "documented_interval CASUAL MousePrecision = (0.6, 0.8)"
| "documented_interval CASUAL AttentionSpan = (10, 30)"
| "documented_interval CASUAL Curiosity = (0.3, 0.5)"
| "documented_interval FOCUSED ReadingSpeed = (300, 400)"
| "documented_interval FOCUSED TypingSpeed = (4, 7)"
| "documented_interval FOCUSED MousePrecision = (0.8, 0.95)"
| "documented_interval FOCUSED AttentionSpan = (30, 60)"
| "documented_interval FOCUSED Curiosity = (0.1, 0.3)"
| "documented_interval EXPLORER ReadingSpeed = (250, 350)"
| "documented_interval EXPLORER TypingSpeed = (3, 5)"
| "documented_interval EXPLORER MousePrecision = (0.5, 0.7)"
| "documented_interval EXPLORER AttentionSpan = (5, 15)"
| "documented_interval EXPLORER Curiosity = (0.7, 0.9)"
| "documented_interval SCANNER ReadingSpeed = (400, 500)"
| "documented_interval SCANNER TypingSpeed = (5, 8)"
| "documented_interval SCANNER MousePrecision = (0.6, 0.8)"
| "documented_interval SCANNER AttentionSpan = (3, 10)"
| "documented_interval SCANNER Curiosity = (0.4, 0.6)"
| "documented_interval RESEARCHER ReadingSpeed = (150, 200)"
| "documented_interval RESEARCHER TypingSpeed = (3, 5)"
| "documented_interval RESEARCHER MousePrecision = (0.7, 0.9)"
| "documented_interval RESEARCHER AttentionSpan = (60, 120)"
| "documented_interval RESEARCHER Curiosity = (0.6, 0.8)"

fun field_value :: "UserBehavior \<Rightarrow> persona_field \<Rightarrow> real" where
  "field_value b ReadingSpeed = reading_speed b"
| "field_value b TypingSpeed = typing_speed b"
| "field_value b MousePrecision = mouse_precision b"
| "field_value b AttentionSpan = attention_span b"
| "field_value b Curiosity = curiosity_level b"

definition in_interval :: "real \<times> real \<Rightarrow> real \<Rightarrow> bool" where
  "in_interval iv x = (fst iv \<le> x \<and> x \<le> snd iv)"

section \<open>Mouse movement: cubic Bezier paths\<close>

type_synonym point = "real \<times> real"

text \<open>
  \<^verbatim>\<open>np.linspace(start, stop, num)\<close> with its default \<^verbatim>\<open>endpoint=True\<close>, as numpy
  computes it: a negative \<^verbatim>\<open>num\<close> raises \<^verbatim>\<open>ValueError\<close>; otherwise, with
  \<^verbatim>\<open>div = num - 1\<close> and \<^verbatim>\<open>delta = stop - start\<close>, the samples are
  \<^verbatim>\<open>arange(0, num) * (delta / div) + start\<close> when \<^verbatim>\<open>div > 0\<close> and
  \<^verbatim>\<open>arange(0, num) * delta + start\<close> otherwise, and when \<^verbatim>\<open>num > 1\<close> the last sample is
  overwritten by \<^verbatim>\<open>stop\<close>. So for \<^verbatim>\<open>num = 1\<close> the only sample is \<^verbatim>\<open>start\<close>.
\<close>

definition linspace :: "real \<Rightarrow> real \<Rightarrow> int \<Rightarrow> real list res" where
  "linspace start stop num =
     (if num < 0 then Inl ValueError
      else let n = nat num;
               divisor = num - 1;
               delta = stop - start;
               y = map real [0..<n];
               y = (if divisor > 0 then map (\<lambda>v. v * (delta / real_of_int divisor)) y
                    else map (\<lambda>v. v * delta) y);
               y = map (\<lambda>v. v + start) y
           in Inr (if num > 1 then y[n - 1 := stop] else y))"

definition default_control_points :: "rng \<Rightarrow> point \<Rightarrow> point \<Rightarrow> point list" where
  "default_control_points r start end =
     (let mid_x = (fst start + fst end) / 2;
          mid_y = (snd start + snd end) / 2;
          offset_x = uniform (- 100) 100 (r 0);
          offset_y = uniform (- 100) 100 (r 1)
      in [(mid_x + offset_x, mid_y + offset_y),
          (mid_x - offset_x / 2, mid_y - offset_y / 2)])"

definition bezier_point :: "point \<Rightarrow> point \<Rightarrow> point \<Rightarrow> point \<Rightarrow> real \<Rightarrow> point" where
  "bezier_point start c0 c1 end t =
     ((1 - t) ^ 3 * fst start + 3 * (1 - t) ^ 2 * t * fst c0
        + 3 * (1 - t) * t ^ 2 * fst c1 + t ^ 3 * fst end,
      (1 - t) ^ 3 * snd start + 3 * (1 - t) ^ 2 * t * snd c0
        + 3 * (1 - t) * t ^ 2 * snd c1 + t ^ 3 * snd end)"

text \<open>
  The loop over the samples. Each iteration reads \<^verbatim>\<open>control_points[0]\<close> and
  \<^verbatim>\<open>control_points[1]\<close>; a caller-supplied list with fewer than two entries raises
  \<^verbatim>\<open>IndexError\<close> in the first iteration (and nothing when there is no iteration).
\<close>

fun bezier_loop :: "point \<Rightarrow> point \<Rightarrow> point list \<Rightarrow> real list \<Rightarrow> point list res" where
  "bezier_loop start end cps [] = Inr []"
| "bezier_loop start end cps (t # ts) =
     (case cps of
        c0 # c1 # _ \<Rightarrow>
          (case bezier_loop start end cps ts of
             Inl e \<Rightarrow> Inl e
           | Inr points \<Rightarrow> Inr (bezier_point start c0 c1 end t # points))
      | _ \<Rightarrow> Inl IndexError)"

text \<open>
  \<^verbatim>\<open>bezier_curve\<close>: when no control points are given, two draws of the random source
  produce them. The result comes with the random source left for later calls.
\<close>

definition bezier_curve ::
  "rng \<Rightarrow> point \<Rightarrow> point \<Rightarrow> point list option \<Rightarrow> int \<Rightarrow> point list res \<times> rng" where
  "bezier_curve r start end control_points num_points =
     (let (cps, r') = (case control_points of
                         None \<Rightarrow> (default_control_points r start end, skip 2 r)
                       | Some cps \<Rightarrow> (cps, r))
      in (case linspace 0 1 num_points of
            Inl e \<Rightarrow> Inl e
          | Inr ts \<Rightarrow> bezier_loop start end cps ts, r'))"


section \<open>The page as the browser driver shows it\<close>

text \<open>
  A DOM node is named by the driver's remote element reference. A \<^verbatim>\<open>WebElement\<close> is a
  Python object wrapping such a reference: \<open>obj_id\<close> is what the built-in \<^verbatim>\<open>id()\<close>
  returns for the wrapper, \<open>node\<close> is the node it refers to.

  Every read of the driver may raise. The record \<open>page\<close> gives, for one state of the
  page, the outcome of each read the program makes: \<^verbatim>\<open>find_elements\<close> by CSS selector,
  \<^verbatim>\<open>is_displayed\<close>, \<^verbatim>\<open>is_enabled\<close>, \<^verbatim>\<open>size\<close> (width, height), \<^verbatim>\<open>location\<close> (x, y),
  the viewport script of the analyzer, \<^verbatim>\<open>tag_name\<close>, \<^verbatim>\<open>text\<close> and \<^verbatim>\<open>get_attribute\<close>
  (\<open>None\<close> when the attribute is absent).
\<close>

type_synonym node = nat

record WebElement =
  obj_id :: nat
  node :: node

record page =
  find_elements :: "string \<Rightarrow> node list res"
  is_displayed :: "node \<Rightarrow> bool res"
  is_enabled :: "node \<Rightarrow> bool res"
  el_size :: "node \<Rightarrow> (real \<times> real) res"
  location :: "node \<Rightarrow> (real \<times> real) res"
  in_viewport :: "node \<Rightarrow> bool res"
  tag_name :: "node \<Rightarrow> string res"
  el_text :: "node \<Rightarrow> string res"
  get_attribute :: "node \<Rightarrow> string \<Rightarrow> string option res"

text \<open>\<^verbatim>\<open>str.lower()\<close> on ASCII text, and \<^verbatim>\<open>value or ''\<close> for an optional string.\<close>

definition lower_char :: "char \<Rightarrow> char" where
  "lower_char c = (let n = (of_char c :: nat) in if 65 \<le> n \<and> n \<le> 90 then char_of (n + 32) else c)"

definition lower :: "string \<Rightarrow> string" where
  "lower s = map lower_char s"

definition or_empty :: "string option \<Rightarrow> string" where
  "or_empty v = (case v of None \<Rightarrow> [] | Some s \<Rightarrow> s)"

section \<open>Page analysis: finding interactive elements\<close>

text \<open>\<^verbatim>\<open>try: ... except ...\<close>: the handler receives the exception raised by the body.\<close>

definition try_except :: "'a res \<Rightarrow> (exn \<Rightarrow> 'a res) \<Rightarrow> 'a res" where
  "try_except body handler = (case body of Inl e \<Rightarrow> handler e | Inr v \<Rightarrow> Inr v)"

text \<open>The catalog of CSS selectors of \<^verbatim>\<open>find_interactive_elements\<close>, in source order.\<close>

definition selectors :: "string list" where
  "selectors =
     [''button:not([disabled])'',
      ''a[href]:not([disabled])'',
      ''input:not([disabled]):not([type='hidden'])'',
      ''select:not([disabled])'',
      ''textarea:not([disabled])'',
      ''[role='button']:not([disabled])'',
      ''[role='link']:not([disabled])'',
      ''[role='menuitem']:not([disabled])'',
      ''[role='tab']:not([disabled])'',
      ''[class*='btn']:not([disabled])'',
      ''[class*='button']:not([disabled])'',
      ''[class*='link']:not([disabled])'',
      ''[class*='clickable']:not([disabled])'',
      ''[data-action]:not([disabled])'',
      ''[data-click]:not([disabled])'',
      ''[data-href]:not([disabled])'',
      ''[onclick]:not([disabled])'']"

text \<open>
  Selenium builds a new \<^verbatim>\<open>WebElement\<close> object for every reference returned by a call of
  \<^verbatim>\<open>find_elements\<close>, and all of them stay alive in the list \<^verbatim>\<open>elements\<close>, so their
  \<^verbatim>\<open>id()\<close>s are pairwise different. The model hands out object identities from a counter
  \<open>heap\<close>, the number of objects created so far. A selector that makes the driver raise is
  logged and skipped.
\<close>

definition wrap :: "nat \<Rightarrow> node list \<Rightarrow> WebElement list" where
  "wrap heap nodes = map (\<lambda>(i, n). \<lparr> obj_id = i, node = n \<rparr>) (enumerate heap nodes)"

fun collect :: "page \<Rightarrow> string list \<Rightarrow> WebElement list \<Rightarrow> nat \<Rightarrow> WebElement list \<times> nat" where
  "collect pg [] elements heap = (elements, heap)"
| "collect pg (selector # rest) elements heap =
     (case find_elements pg selector of
        Inr found \<Rightarrow> collect pg rest (elements @ wrap heap found) (heap + length found)
      | Inl e \<Rightarrow> collect pg rest elements heap)"

text \<open>
  \<^verbatim>\<open>_is_element_interactive\<close>: the body of the \<^verbatim>\<open>try\<close>, in which each read may raise,
  and the whole method with its two \<^verbatim>\<open>except\<close> clauses, both of which return
  \<^verbatim>\<open>False\<close>. The test \<^verbatim>\<open>not a() or not b()\<close> does not evaluate \<^verbatim>\<open>b()\<close> when \<^verbatim>\<open>a()\<close> is false.
\<close>

definition is_element_interactive_body :: "page \<Rightarrow> node \<Rightarrow> bool res" where
  "is_element_interactive_body pg element =
     bind_res (is_displayed pg element) (\<lambda>displayed.
       if \<not> displayed then Inr False
       else bind_res (is_enabled pg element) (\<lambda>enabled.
         if \<not> enabled then Inr False
         else bind_res (el_size pg element) (\<lambda>sz.
           if fst sz < 5 \<or> snd sz < 5 then Inr False
           else in_viewport pg element)))"

definition is_element_interactive :: "page \<Rightarrow> node \<Rightarrow> bool res" where
  "is_element_interactive pg element =
     try_except (is_element_interactive_body pg element)
       (\<lambda>e. if e = StaleElementReferenceException then Inr False else Inr False)"

text \<open>
  The de-duplication loop: \<^verbatim>\<open>seen\<close> is a set of \<^verbatim>\<open>id(element)\<close> values, that is of object
  identities of the wrappers, not of node references.
\<close>

fun unique_loop :: "page \<Rightarrow> nat set \<Rightarrow> WebElement list \<Rightarrow> WebElement list res" where
  "unique_loop pg seen [] = Inr []"
| "unique_loop pg seen (element # elements) =
     (let element_id = obj_id element in
      if element_id \<notin> seen then
        bind_res (is_element_interactive pg (node element)) (\<lambda>interactive.
          bind_res (unique_loop pg (insert element_id seen) elements) (\<lambda>unique_elements.
            Inr (if interactive then element # unique_elements else unique_elements)))
      else unique_loop pg seen elements)"

definition find_interactive_elements :: "page \<Rightarrow> nat \<Rightarrow> WebElement list res \<times> nat" where
  "find_interactive_elements pg heap =
     (let (elements, heap') = collect pg selectors [] heap
      in (unique_loop pg {} elements, heap'))"

text \<open>The nodes a selector matches (none when the driver rejects the selector).\<close>

definition matches :: "page \<Rightarrow> string \<Rightarrow> node list" where
  "matches pg selector = (case find_elements pg selector of Inl e \<Rightarrow> [] | Inr found \<Rightarrow> found)"

section \<open>Element scoring\<close>









section \<open>Element selection\<close>

text \<open>
  Python slices \<^verbatim>\<open>xs[:k]\<close> and \<^verbatim>\<open>xs[k:]\<close>: a negative \<open>k\<close> counts from the end.
\<close>

definition slice_to :: "'a list \<Rightarrow> int \<Rightarrow> 'a list" where
  "slice_to xs k = (if k < 0 then take (nat (int (length xs) + k)) xs else take (nat k) xs)"

definition slice_from :: "'a list \<Rightarrow> int \<Rightarrow> 'a list" where
  "slice_from xs k = (if k < 0 then drop (nat (int (length xs) + k)) xs else drop (nat k) xs)"

text \<open>
  The outcomes of the two library samplers are taken as parameters: the positions returned
  by \<^verbatim>\<open>random.sample\<close> for a population of \<open>n\<close> and a sample size \<open>k\<close>, and by
  \<^verbatim>\<open>np.random.choice(n, size=k, replace=False, p=p)\<close>. What the libraries check before
  sampling is part of the model: \<^verbatim>\<open>random.sample\<close> raises \<^verbatim>\<open>ValueError\<close> unless
  \<open>0 \<le> k \<le> n\<close>; \<^verbatim>\<open>np.random.choice\<close> raises \<^verbatim>\<open>ValueError\<close> for an empty population with
  a non-zero size, for probabilities of the wrong length, with a negative entry or not
  summing to one, for a size above the population or below zero, and when fewer entries
  of \<open>p\<close> are non-zero than the size asked for.
\<close>

record chooser =
  sample_positions :: "nat \<Rightarrow> nat \<Rightarrow> nat list"
  choice_positions :: "nat \<Rightarrow> nat \<Rightarrow> real list \<Rightarrow> nat list"

definition random_sample :: "chooser \<Rightarrow> 'a list \<Rightarrow> int \<Rightarrow> 'a list res" where
  "random_sample ch population k =
     (if 0 \<le> k \<and> k \<le> int (length population)
      then Inr (map (\<lambda>i. population ! i) (sample_positions ch (length population) (nat k)))
      else Inl ValueError)"

definition np_random_choice :: "chooser \<Rightarrow> nat \<Rightarrow> int \<Rightarrow> real list \<Rightarrow> nat list res" where
  "np_random_choice ch a k p =
     (if a = 0 \<and> k \<noteq> 0 then Inl ValueError
      else if length p \<noteq> a then Inl ValueError
      else if list_ex (\<lambda>x. x < 0) p then Inl ValueError
      else if sum_list p \<noteq> 1 then Inl ValueError
      else if k > int a then Inl ValueError
      else if k < 0 then Inl ValueError
      else if int (length (filter (\<lambda>x. x > 0) p)) < k then Inl ValueError
      else Inr (choice_positions ch a (nat k) p))"

text \<open>\<^verbatim>\<open>_select_elements_by_behavior\<close>, branch by branch.\<close>

definition select_elements_by_behavior ::
  "chooser \<Rightarrow> BehaviorPattern \<Rightarrow> ('e \<times> real) list \<Rightarrow> int \<Rightarrow> ('e \<times> real) list res" where
  "select_elements_by_behavior ch pat scored_elements max_count =
     (if pat = FOCUSED then
        Inr (slice_to (filter (\<lambda>e. snd e > 0.6) scored_elements) max_count)
      else if pat = EXPLORER then
        (let high_score = slice_to scored_elements (max_count div 2);
             remainder = slice_from scored_elements (max_count div 2)
         in bind_res (random_sample ch remainder (min (max_count div 2) (int (length remainder))))
              (\<lambda>random_picks. Inr (high_score @ random_picks)))
      else if pat = SCANNER then
        Inr (slice_to scored_elements (min 3 max_count))
      else
        (if int (length scored_elements) \<le> max_count then Inr scored_elements
         else
           (let weights = map snd scored_elements;
                total_weight = sum_list weights
            in if total_weight = 0 then
                 random_sample ch scored_elements (min max_count (int (length scored_elements)))
               else
                 (let probabilities = map (\<lambda>w. w / total_weight) weights
                  in bind_res (np_random_choice ch (length scored_elements)
                                 (min max_count (int (length scored_elements))) probabilities)
                       (\<lambda>indices. Inr (map (\<lambda>i. scored_elements ! i) indices))))))"

text \<open>
  What a sampler has to deliver when the library's checks pass: as many positions as asked
  for, pairwise distinct, inside the population, and for the weighted sampler only
  positions of non-zero probability. One sampler that does so takes the first admissible
  positions.
\<close>

definition chooser_ok :: "chooser \<Rightarrow> bool" where
  "chooser_ok ch =
     ((\<forall>n k. k \<le> n \<longrightarrow>
          length (sample_positions ch n k) = k \<and> distinct (sample_positions ch n k)
          \<and> set (sample_positions ch n k) \<subseteq> {..<n})
      \<and> (\<forall>n k p. length p = n \<and> k \<le> length (filter (\<lambda>x. x > 0) p) \<longrightarrow>
          length (choice_positions ch n k p) = k \<and> distinct (choice_positions ch n k p)
          \<and> set (choice_positions ch n k p) \<subseteq> {i. i < n \<and> p ! i > 0}))"

definition first_positions :: chooser where
  "first_positions = \<lparr> sample_positions = (\<lambda>n k. [0..<k]),
       choice_positions = (\<lambda>n k p. take k (filter (\<lambda>i. p ! i > 0) [0..<n])) \<rparr>"

text \<open>A page for concrete evaluation: a large button labelled Submit above the fold
  (node 1, matched by two selectors), a tiny hidden link (node 2) and a node that has gone
  stale (node 3); one selector is rejected by the driver.\<close>

definition demo_page :: page where
  "demo_page =
     \<lparr> find_elements = (\<lambda>sel.
         if sel = ''button:not([disabled])'' then Inr [1]
         else if sel = ''a[href]:not([disabled])'' then Inr [2, 3]
         else if sel = ''[class*='btn']:not([disabled])'' then Inr [1]
         else if sel = ''[onclick]:not([disabled])'' then Inl WebDriverException
         else Inr []),
       is_displayed = (\<lambda>n. if n = 3 then Inl StaleElementReferenceException else Inr (n = 1)),
       is_enabled = (\<lambda>n. if n = 3 then Inl StaleElementReferenceException else Inr True),
       el_size = (\<lambda>n. if n = 3 then Inl StaleElementReferenceException
                       else if n = 1 then Inr (200, 40) else Inr (1, 1)),
       location = (\<lambda>n. if n = 3 then Inl StaleElementReferenceException
                        else if n = 1 then Inr (10, 100) else Inr (0, 900)),
       in_viewport = (\<lambda>n. if n = 3 then Inl StaleElementReferenceException else Inr True),
       tag_name = (\<lambda>n. if n = 3 then Inl StaleElementReferenceException
                        else if n = 1 then Inr ''BUTTON'' else Inr ''a''),
       el_text = (\<lambda>n. if n = 3 then Inl StaleElementReferenceException
                       else if n = 1 then Inr ''Submit'' else Inr []),
       get_attribute = (\<lambda>n a. if n = 3 then Inl StaleElementReferenceException
                             else if n = 1 \<and> a = ''class'' then Inr (Some ''btn btn-primary'')
                             else Inr None) \<rparr>"

definition demo_behavior :: UserBehavior where
  "demo_behavior = \<lparr> pattern = CASUAL, reading_speed = 225, typing_speed = 3,
                      mouse_precision = 0.7, attention_span = 20, curiosity_level = 0.5 \<rparr>"

section \<open>The session, the driver's commands and the clock\<close>

text \<open>
  What the program does to the outside is a sequence of commands: to the driver
  (\<^verbatim>\<open>quit\<close>, \<^verbatim>\<open>back\<close>, accepting an alert), to an element (\<^verbatim>\<open>clear\<close>, \<^verbatim>\<open>send_keys\<close> with
  text or with the backspace key), to the clock (\<^verbatim>\<open>time.sleep\<close>) and to the logger. The
  world records the commands issued so far, the content of each input field, the text of
  the pending alert (or the exception raised when there is none), the outcome of each
  successive read of \<^verbatim>\<open>driver.current_url\<close> and of each successive call of
  \<^verbatim>\<open>driver.quit()\<close>.
\<close>

datatype command =
    Quit
  | Back
  | AlertAccept
  | Clear node
  | SendKeys node string
  | SendBackspace node
  | Sleep real
  | Log string

record world =
  trace :: "command list"
  field_content :: "node \<Rightarrow> string"
  alert_text :: "string res"
  url_reads :: "nat \<Rightarrow> string res"
  reads :: nat
  quit_outcome :: "nat \<Rightarrow> unit res"
  quits :: nat

definition emit :: "command \<Rightarrow> world \<Rightarrow> world" where
  "emit c w =
     (let w' = w\<lparr> trace := trace w @ [c] \<rparr> in
      case c of
        Clear n \<Rightarrow> w'\<lparr> field_content := (field_content w)(n := []) \<rparr>
      | SendKeys n s \<Rightarrow> w'\<lparr> field_content := (field_content w)(n := field_content w n @ s) \<rparr>
      | SendBackspace n \<Rightarrow> w'\<lparr> field_content := (field_content w)(n := butlast (field_content w n)) \<rparr>
      | AlertAccept \<Rightarrow> w'\<lparr> alert_text := Inl NoAlertPresentException \<rparr>
      | Quit \<Rightarrow> w'\<lparr> quits := Suc (quits w) \<rparr>
      | _ \<Rightarrow> w')"

text \<open>
  The fields of \<^verbatim>\<open>AdvancedWebAutomation\<close> that \<^verbatim>\<open>cleanup\<close> reads. \<^verbatim>\<open>self.driver\<close> is
  \<^verbatim>\<open>None\<close> until \<^verbatim>\<open>_setup_driver\<close> has stored the driver handle; no method assigns
  to it afterwards. \<^verbatim>\<open>cleanup\<close> returns the session as it leaves it.
\<close>

record session =
  driver :: "nat option"
  enable_monitoring :: bool
  session_id :: string
  behavior :: UserBehavior

definition cleanup :: "session \<Rightarrow> world \<Rightarrow> unit res \<times> session \<times> world" where
  "cleanup self w =
     (case driver self of
        None \<Rightarrow> (Inr (), self, w)
      | Some d \<Rightarrow>
          (let w1 = (if enable_monitoring self
                     then emit (Log (''Session data: '' @ session_id self)) w else w);
               w2 = emit Quit w1
           in case quit_outcome w1 (quits w1) of
                Inl e \<Rightarrow> (Inl e, self, w2)
              | Inr _ \<Rightarrow> (Inr (), self, emit (Log (''Session '' @ session_id self @ '' ended'')) w2)))"

section \<open>Post-click handling\<close>

text \<open>
  \<^verbatim>\<open>_handle_post_click\<close>. The inner \<^verbatim>\<open>try\<close> with its bare \<^verbatim>\<open>except: pass\<close> handles a
  pending alert. Then \<^verbatim>\<open>driver.current_url\<close> is read into \<^verbatim>\<open>current_url\<close> and read
  again inside the comparison. The outer \<^verbatim>\<open>except Exception\<close> logs and returns.
\<close>

definition read_current_url :: "world \<Rightarrow> string res \<times> world" where
  "read_current_url w = (url_reads w (reads w), w\<lparr> reads := Suc (reads w) \<rparr>)"

definition handle_alert :: "rng \<Rightarrow> world \<Rightarrow> world \<times> rng" where
  "handle_alert r w =
     (case alert_text w of
        Inl e \<Rightarrow> (w, r)
      | Inr t \<Rightarrow>
          (emit AlertAccept (emit (Sleep (uniform 1 2 (r 0))) (emit (Log (''Alert detected: '' @ t)) w)),
           skip 1 r))"

definition handle_post_click :: "rng \<Rightarrow> world \<Rightarrow> world \<times> rng" where
  "handle_post_click r w =
     (let w1 = emit (Sleep (uniform 0.5 1.5 (r 0))) w;
          (w2, r2) = handle_alert (skip 1 r) w1;
          (first_read, w3) = read_current_url w2
      in case first_read of
           Inl e \<Rightarrow> (emit (Log ''Post-click handling error'') w3, r2)
         | Inr current_url \<Rightarrow>
             (let (second_read, w4) = read_current_url w3
              in case second_read of
                   Inl e \<Rightarrow> (emit (Log ''Post-click handling error'') w4, r2)
                 | Inr url_now \<Rightarrow>
                     if current_url \<noteq> url_now then
                       (let w5 = emit (Log (''Navigated to: '' @ current_url)) w4
                        in if r2 0 < 0.3 then
                             (emit (Log ''Navigated back'')
                                (emit Back (emit (Sleep (uniform 2 5 (r2 1))) w5)),
                              skip 2 r2)
                           else (w5, skip 1 r2))
                     else (w4, r2)))"

section \<open>The input handler\<close>

text \<open>
  \<^verbatim>\<open>str()\<close> of an integer; \<^verbatim>\<open>random.randint\<close> and \<^verbatim>\<open>random.choice\<close> as functions of
  one draw \<open>u\<close> of the random source: every value of the range, and no other, is reached.
\<close>

fun str_nat :: "nat \<Rightarrow> string" where
  "str_nat n = (if n < 10 then [char_of (48 + n)]
                else str_nat (n div 10) @ [char_of (48 + n mod 10)])"

definition str_int :: "int \<Rightarrow> string" where
  "str_int i = (if i < 0 then CHR ''-'' # str_nat (nat (- i)) else str_nat (nat i))"

definition randint :: "int \<Rightarrow> int \<Rightarrow> real \<Rightarrow> int" where
  "randint a b u = a + \<lfloor>u * real_of_int (b - a + 1)\<rfloor>"

definition choice :: "'a list \<Rightarrow> real \<Rightarrow> 'a" where
  "choice xs u = xs ! nat \<lfloor>u * real (length xs)\<rfloor>"

definition generate_realistic_text :: "page \<Rightarrow> rng \<Rightarrow> node \<Rightarrow> string res \<times> rng" where
  "generate_realistic_text pg r element =
     (case get_attribute pg element ''placeholder'' of
        Inl e \<Rightarrow> (Inl e, r)
      | Inr ph \<Rightarrow>
     (case get_attribute pg element ''name'' of
        Inl e \<Rightarrow> (Inl e, r)
      | Inr nm \<Rightarrow>
     (case get_attribute pg element ''id'' of
        Inl e \<Rightarrow> (Inl e, r)
      | Inr ident \<Rightarrow>
          (let placeholder = or_empty ph; name = or_empty nm; element_id = or_empty ident in
           if sublist ''name'' (lower placeholder) \<or> sublist ''name'' (lower name) then
             (Inr (choice [''John Smith'', ''Jane Doe'', ''Alice Johnson''] (r 0)), skip 1 r)
           else if sublist ''email'' (lower placeholder) \<or> sublist ''email'' (lower name) then
             (Inr (''user'' @ str_int (randint 100 999 (r 0)) @ ''@example.com''), skip 1 r)
           else if sublist ''phone'' (lower placeholder) \<or> sublist ''phone'' (lower name) then
             (Inr (''555-'' @ str_int (randint 100 999 (r 0)) @ ''-''
                     @ str_int (randint 1000 9999 (r 1))), skip 2 r)
           else if sublist ''search'' (lower placeholder) \<or> sublist ''search'' (lower name) then
             (Inr (choice [''test query'', ''sample search'', ''demo''] (r 0)), skip 1 r)
           else
             (Inr (''Test input '' @ str_int (randint 1 100 (r 0))), skip 1 r)))))"

text \<open>
  \<^verbatim>\<open>_type_like_human\<close>: the field is cleared, then each character is sent and followed by
  a pause; \<^verbatim>\<open>1 / typing_speed\<close> raises \<^verbatim>\<open>ZeroDivisionError\<close> for a typing speed of zero.
  With one draw below 0.1 and a text longer than five characters a typo is typed and
  removed again.
\<close>

fun type_chars :: "UserBehavior \<Rightarrow> node \<Rightarrow> string \<Rightarrow> rng \<Rightarrow> world \<Rightarrow> unit res \<times> world \<times> rng" where
  "type_chars b element [] r w = (Inr (), w, r)"
| "type_chars b element (c # cs) r w =
     (let w1 = emit (SendKeys element [c]) w in
      if typing_speed b = 0 then (Inl ZeroDivisionError, w1, r)
      else
        (let base_delay = 1 / typing_speed b;
             delay = base_delay * uniform 0.5 1.5 (r 0)
         in if r 1 < 0.1
            then type_chars b element cs (skip 3 r) (emit (Sleep (delay + uniform 0.2 0.5 (r 2))) w1)
            else type_chars b element cs (skip 2 r) (emit (Sleep delay) w1)))"

definition type_like_human ::
  "UserBehavior \<Rightarrow> node \<Rightarrow> string \<Rightarrow> rng \<Rightarrow> world \<Rightarrow> unit res \<times> world \<times> rng" where
  "type_like_human b element text r w =
     (case type_chars b element text r (emit (Clear element) w) of
        (Inl e, w2, r2) \<Rightarrow> (Inl e, w2, r2)
      | (Inr _, w2, r2) \<Rightarrow>
          if r2 0 < 0.1 \<and> length text > 5 then
            (Inr (),
             emit (Sleep (uniform 0.1 0.3 (r2 3)))
               (emit (SendBackspace element)
                  (emit (Sleep (uniform 0.3 0.7 (r2 2)))
                     (emit (SendKeys element [choice ''abcdefghijklmnopqrstuvwxyz'' (r2 1)]) w2))),
             skip 4 r2)
          else (Inr (), w2, skip 1 r2))"

text \<open>
  \<^verbatim>\<open>_handle_input\<close>: \<^verbatim>\<open>element.get_attribute('type') or 'text'\<close> replaces both a missing
  attribute and an empty one by \<^verbatim>\<open>'text'\<close>.
\<close>

definition handle_input ::
  "page \<Rightarrow> UserBehavior \<Rightarrow> rng \<Rightarrow> node \<Rightarrow> world \<Rightarrow> unit res \<times> world \<times> rng" where
  "handle_input pg b r element w =
     (case get_attribute pg element ''type'' of
        Inl e \<Rightarrow> (Inl e, w, r)
      | Inr ty \<Rightarrow>
          (let input_type = (if or_empty ty = [] then ''text'' else or_empty ty) in
           if input_type = ''text'' then
             (case generate_realistic_text pg r element of
                (Inl e, r') \<Rightarrow> (Inl e, w, r')
              | (Inr text, r') \<Rightarrow> type_like_human b element text r' w)
           else if input_type = ''email'' then
             type_like_human b element
               (''test'' @ str_int (randint 1000 9999 (r 0)) @ ''@example.com'') (skip 1 r) w
           else if input_type = ''password'' then
             type_like_human b element
               (''Test'' @ map (\<lambda>i. choice ''123456789'' (r i)) [0..<4] @ ''!'') (skip 4 r) w
           else if input_type = ''search'' then
             type_like_human b element
               (choice [''python'', ''machine learning'', ''web development'', ''data science''] (r 0))
               (skip 1 r) w
           else (Inr (), w, r)))"

text \<open>A world, a session and pages of one input field for concrete evaluation.\<close>

definition demo_world :: world where
  "demo_world = \<lparr> trace = [], field_content = (\<lambda>_. ''old''),
       alert_text = Inl NoAlertPresentException,
       url_reads = (\<lambda>_. Inr ''https://example.com/''), reads = 0,
       quit_outcome = (\<lambda>_. Inr ()), quits = 0 \<rparr>"

definition demo_session :: session where
  "demo_session = \<lparr> driver = Some 0, enable_monitoring = True, session_id = ''0123456789abcdef'',
       behavior = demo_behavior \<rparr>"

definition typed_page :: "string option \<Rightarrow> page" where
  "typed_page ty = demo_page \<lparr> get_attribute := (\<lambda>n a. if a = ''type'' then Inr ty else Inr None) \<rparr>"

section \<open>Properties of persona generation\<close>

lemma uniform_bounds:
  assumes "a \<le> b" and "0 \<le> u" and "u \<le> 1"
  shows "a \<le> uniform a b u" and "uniform a b u \<le> b"
proof -
  have "0 \<le> (b - a) * u"
    using assms by simp
  then show "a \<le> uniform a b u"
    by (simp add: uniform_def)
  have "(b - a) * u \<le> (b - a) * 1"
    using assms by (intro mult_left_mono) simp_all
  then show "uniform a b u \<le> b"
    by (simp add: uniform_def)
qed

lemma in_interval_uniform:
  assumes "a \<le> b" and "0 \<le> u" and "u < 1"
  shows "in_interval (a, b) (uniform a b u)"
  using uniform_bounds [of a b u] assms by (simp add: in_interval_def)

text \<open>
  C3. For each of the five behaviour patterns and every outcome of the random source,
  each of the five numeric fields of the generated persona lies in the closed interval
  documented for that pattern and field, and the persona carries the requested pattern.
\<close>

theorem generate_persona_within_intervals:
  assumes "rng_ok r"
  shows "in_interval (documented_interval p f) (field_value (fst (generate_persona r p)) f)
         \<and> pattern (fst (generate_persona r p)) = p"
proof -
  have u: "0 \<le> r i" "r i < 1" for i
    using assms by (simp_all add: rng_ok_def)
  show ?thesis
    by (cases p; cases f)
       (simp_all add: generate_persona_def patterns_def Let_def in_interval_uniform u)
qed

theorem generate_persona_within_intervals_witness:
  "rng_ok (\<lambda>_. 1 / 2)
   \<and> in_interval (300, 400) (reading_speed (fst (generate_persona (\<lambda>_. 1 / 2) FOCUSED)))
   \<and> reading_speed (fst (generate_persona (\<lambda>_. 1 / 2) FOCUSED)) = 350"
proof -
  have ok: "rng_ok (\<lambda>_. 1 / 2)"
    by (simp add: rng_ok_def)
  have "in_interval (documented_interval FOCUSED ReadingSpeed)
          (field_value (fst (generate_persona (\<lambda>_. 1 / 2) FOCUSED)) ReadingSpeed)"
    using generate_persona_within_intervals [OF ok, of FOCUSED ReadingSpeed] by simp
  moreover have "reading_speed (fst (generate_persona (\<lambda>_. 1 / 2) FOCUSED)) = 350"
    by (simp add: generate_persona_def patterns_def uniform_def)
  ultimately show ?thesis
    using ok by simp
qed

section \<open>Properties of the Bezier path\<close>











lemma bezier_curve_negative_count:
  "num < 0 \<Longrightarrow> fst (bezier_curve r s e cps num) = Inl ValueError"
  by (simp add: bezier_curve_def linspace_def split: option.split prod.split)

section \<open>Properties of element scoring\<close>










section \<open>Properties of element selection\<close>




lemma sum_list_scaled:
  fixes ws :: "real list"
  shows "sum_list (map (\<lambda>w. w / c) ws) = sum_list ws / c"
  by (induction ws) (simp_all add: add_divide_distrib)

lemma sum_list_nonneg_pos:
  fixes ws :: "real list"
  assumes "\<forall>w \<in> set ws. 0 \<le> w" and "sum_list ws \<noteq> 0"
  shows "0 < sum_list ws"
proof -
  have "0 \<le> sum_list ws"
    using assms(1) by (simp add: sum_list_nonneg)
  with assms(2) show ?thesis by simp
qed

lemma positive_count_scaled:
  fixes c :: real
  assumes "0 < c"
  shows "length (filter (\<lambda>x. x > 0) (map (\<lambda>e. snd e / c) scored))
         = length (filter (\<lambda>e. snd e > 0) scored)"
  using assms by (induction scored) (simp_all add: zero_less_divide_iff)

lemma positions_filter_length:
  "length (filter (\<lambda>i. P (p ! i)) [0..<length p]) = length (filter P p)"
proof -
  have "filter P p = filter P (map (\<lambda>i. p ! i) [0..<length p])"
    by (simp add: map_nth)
  also have "\<dots> = map (\<lambda>i. p ! i) (filter (\<lambda>i. P (p ! i)) [0..<length p])"
    by (simp add: filter_map comp_def)
  finally show ?thesis
    by (metis length_map)
qed

lemma first_positions_ok: "chooser_ok first_positions"
proof -
  have "length (take k (filter (\<lambda>i. p ! i > 0) [0..<length p])) = k"
    if "k \<le> length (filter (\<lambda>x. x > 0) p)" for k and p :: "real list"
    using that positions_filter_length [of "\<lambda>x. x > 0" p] by simp
  moreover have "set (take k (filter (\<lambda>i. p ! i > 0) [0..<length p])) \<subseteq> {i. i < length p \<and> p ! i > 0}"
    for k and p :: "real list"
    by (auto dest: in_set_takeD)
  ultimately show ?thesis
    by (auto simp: chooser_ok_def first_positions_def)
qed

text \<open>
  C5, as the code has it. Under the Casual or Researcher pattern, for \<open>max_count \<ge> 0\<close> and
  non-negative scores, and provided the whole list fits, or the total weight is zero, or at
  least \<open>max_count\<close> scores are non-zero, selection raises nothing and returns the elements
  at \<open>min(max_count, length)\<close> pairwise distinct positions of the input: every position when
  the list fits; the positions drawn by \<^verbatim>\<open>random.sample\<close> when the total weight is zero; and
  otherwise the positions drawn without replacement by \<^verbatim>\<open>np.random.choice\<close> with each
  probability the element's score over the total, all of them of non-zero score.
\<close>

theorem select_default_sample:
  fixes scored :: "('e \<times> real) list"
  assumes ok: "chooser_ok ch"
    and pat: "pat = CASUAL \<or> pat = RESEARCHER"
    and nonneg_count: "0 \<le> max_count"
    and nonneg: "\<forall>e \<in> set scored. 0 \<le> snd e"
    and enough: "int (length scored) \<le> max_count \<or> sum_list (map snd scored) = 0
                 \<or> max_count \<le> int (length (filter (\<lambda>e. snd e > 0) scored))"
  shows "\<exists>idx. select_elements_by_behavior ch pat scored max_count = Inr (map (\<lambda>i. scored ! i) idx)
           \<and> distinct idx \<and> set idx \<subseteq> {..<length scored}
           \<and> int (length idx) = min max_count (int (length scored))
           \<and> (max_count < int (length scored) \<and> sum_list (map snd scored) \<noteq> 0 \<longrightarrow>
                idx = choice_positions ch (length scored) (nat max_count)
                        (map (\<lambda>e. snd e / sum_list (map snd scored)) scored)
                \<and> (\<forall>i \<in> set idx. snd (scored ! i) > 0))
           \<and> (max_count < int (length scored) \<and> sum_list (map snd scored) = 0 \<longrightarrow>
                idx = sample_positions ch (length scored) (nat max_count))
           \<and> (int (length scored) \<le> max_count \<longrightarrow> idx = [0..<length scored])"
proof -
  let ?n = "length scored"
  let ?total = "sum_list (map snd scored)"
  have other: "pat \<noteq> FOCUSED" "pat \<noteq> EXPLORER" "pat \<noteq> SCANNER"
    using pat by auto
  consider (all) "int ?n \<le> max_count"
    | (uniform) "max_count < int ?n" "?total = 0"
    | (weighted) "max_count < int ?n" "?total \<noteq> 0"
    by linarith
  then show ?thesis
  proof cases
    case all
    have "select_elements_by_behavior ch pat scored max_count = Inr (map (\<lambda>i. scored ! i) [0..<?n])"
      using all other by (simp add: select_elements_by_behavior_def map_nth)
    then show ?thesis
      using all by (intro exI [of _ "[0..<?n]"]) auto
  next
    case uniform
    let ?idx = "sample_positions ch ?n (nat max_count)"
    have k: "nat max_count \<le> ?n"
      using uniform nonneg_count by linarith
    have props: "length ?idx = nat max_count" "distinct ?idx" "set ?idx \<subseteq> {..<?n}"
      using ok k unfolding chooser_ok_def by blast+
    have "select_elements_by_behavior ch pat scored max_count = Inr (map (\<lambda>i. scored ! i) ?idx)"
      using uniform other nonneg_count
      by (simp add: select_elements_by_behavior_def random_sample_def Let_def min_def)
    then show ?thesis
      using uniform props nonneg_count by (intro exI [of _ ?idx]) auto
  next
    case weighted
    let ?p = "map (\<lambda>e. snd e / ?total) scored"
    let ?idx = "choice_positions ch ?n (nat max_count) ?p"
    have pos: "0 < ?total"
      using nonneg weighted(2) by (intro sum_list_nonneg_pos) auto
    have cnt: "length (filter (\<lambda>x. x > 0) ?p) = length (filter (\<lambda>e. snd e > 0) scored)"
      using pos by (rule positive_count_scaled)
    have k: "nat max_count \<le> length (filter (\<lambda>x. x > 0) ?p)"
      using enough weighted nonneg_count unfolding cnt by linarith
    have props: "length ?idx = nat max_count" "distinct ?idx"
      "set ?idx \<subseteq> {i. i < ?n \<and> ?p ! i > 0}"
    proof -
      have "length ?p = ?n \<and> nat max_count \<le> length (filter (\<lambda>x. x > 0) ?p) \<longrightarrow>
              length ?idx = nat max_count \<and> distinct ?idx
              \<and> set ?idx \<subseteq> {i. i < ?n \<and> ?p ! i > 0}"
        using ok unfolding chooser_ok_def by blast
      with k show "length ?idx = nat max_count" "distinct ?idx"
        "set ?idx \<subseteq> {i. i < ?n \<and> ?p ! i > 0}"
        by simp_all
    qed
    have no_neg: "\<not> list_ex (\<lambda>x. x < 0) ?p"
      using nonneg pos by (auto simp: list_ex_iff divide_less_0_iff)
    have one: "sum_list ?p = 1"
      using pos sum_list_scaled [of ?total "map snd scored"] by (simp add: comp_def)
    have k': "\<not> int (length (filter (\<lambda>x. x > 0) ?p)) < max_count"
      using k nonneg_count by linarith
    have ne: "?n \<noteq> 0"
      using weighted nonneg_count by auto
    have choice: "np_random_choice ch ?n (min max_count (int ?n)) ?p = Inr ?idx"
      using weighted nonneg_count no_neg one k' ne
      by (simp add: np_random_choice_def min_def)
    have res: "select_elements_by_behavior ch pat scored max_count = Inr (map (\<lambda>i. scored ! i) ?idx)"
      using weighted other choice
      by (simp add: select_elements_by_behavior_def Let_def bind_res_def comp_def)
    have positive: "\<forall>i \<in> set ?idx. snd (scored ! i) > 0"
    proof
      fix i assume "i \<in> set ?idx"
      with props(3) have "i < ?n" "?p ! i > 0" by auto
      then show "snd (scored ! i) > 0"
        using pos by (simp add: zero_less_divide_iff)
    qed
    have sub: "set ?idx \<subseteq> {..<?n}"
      using props(3) by auto
    show ?thesis
      using res props(1,2) sub positive weighted nonneg_count
      by (intro exI [of _ ?idx]) auto
  qed
qed

theorem select_default_sample_witness:
  "chooser_ok first_positions \<and> (0::int) \<le> 2
   \<and> list_all (\<lambda>e. 0 \<le> snd e) [(1::nat, 1::real), (2, 0), (3, 0.5)]
   \<and> select_elements_by_behavior first_positions CASUAL [(1::nat, 1), (2, 0), (3, 0.5)] 2
       = Inr [(1, 1), (3, 0.5)]
   \<and> (\<exists>idx. [(1::nat, 1::real), (3, 0.5)] = map (\<lambda>i. [(1::nat, 1::real), (2, 0), (3, 0.5)] ! i) idx
          \<and> distinct idx \<and> int (length idx) = 2)"
proof -
  let ?scored = "[(1::nat, 1::real), (2, 0), (3, 0.5)]"
  have count: "(0::int) \<le> 2"
    by simp
  have pat: "CASUAL = CASUAL \<or> CASUAL = RESEARCHER"
    by simp
  have nonneg: "\<forall>e \<in> set ?scored. 0 \<le> snd e"
    by simp
  have enough: "int (length ?scored) \<le> 2 \<or> sum_list (map snd ?scored) = 0
                 \<or> 2 \<le> int (length (filter (\<lambda>e. snd e > 0) ?scored))"
    by simp
  have val: "select_elements_by_behavior first_positions CASUAL ?scored 2 = Inr [(1, 1), (3, 0.5)]"
    by code_simp
  obtain idx where sel: "select_elements_by_behavior first_positions CASUAL ?scored 2
                 = Inr (map (\<lambda>i. ?scored ! i) idx)"
    and d: "distinct idx" and l: "int (length idx) = min 2 (int (length ?scored))"
    using select_default_sample [OF first_positions_ok pat count nonneg enough] by blast
  from sel have "[(1::nat, 1::real), (3, 0.5)] = map (\<lambda>i. ?scored ! i) idx"
    unfolding val by (simp only: sum.inject)
  moreover from l have "int (length idx) = 2"
    by simp
  ultimately have "\<exists>idx. [(1::nat, 1::real), (3, 0.5)] = map (\<lambda>i. ?scored ! i) idx
          \<and> distinct idx \<and> int (length idx) = 2"
    using d by (intro exI [of _ idx] conjI)
  moreover have "list_all (\<lambda>e. 0 \<le> snd e) ?scored"
    by simp
  ultimately show ?thesis
    using val first_positions_ok count by (intro conjI)
qed

text \<open>
  The claim as written fails in two ways. With one score non-zero and two zero, asking for
  two elements makes \<^verbatim>\<open>np.random.choice\<close> raise \<^verbatim>\<open>ValueError\<close> (fewer non-zero entries in
  \<open>p\<close> than the size). With a negative \<open>max_count\<close>, \<^verbatim>\<open>random.sample\<close> raises \<^verbatim>\<open>ValueError\<close>.
\<close>

theorem select_default_raises_counterexample:
  "select_elements_by_behavior first_positions CASUAL [(1::nat, 1), (2, 0), (3, 0)] 2
     = Inl ValueError
   \<and> select_elements_by_behavior first_positions CASUAL [(1::nat, 0)] (- 1) = Inl ValueError"
  by (simp add: select_elements_by_behavior_def random_sample_def np_random_choice_def
        bind_res_def Let_def)

section \<open>Properties of page analysis\<close>

lemma is_element_interactive_total: "\<exists>b. is_element_interactive pg e = Inr b"
  by (cases "is_element_interactive_body pg e")
     (auto simp: is_element_interactive_def try_except_def)

lemma is_element_interactive_True:
  "is_element_interactive pg e = Inr True \<longleftrightarrow> is_element_interactive_body pg e = Inr True"
  by (cases "is_element_interactive_body pg e")
     (simp_all add: is_element_interactive_def try_except_def)

lemma unique_loop_total:
  "\<exists>found. unique_loop pg seen es = Inr found
     \<and> (\<forall>w \<in> set found. w \<in> set es \<and> is_element_interactive_body pg (node w) = Inr True)"
proof (induction es arbitrary: seen)
  case Nil
  show ?case by simp
next
  case (Cons e es)
  obtain b where b: "is_element_interactive pg (node e) = Inr b"
    using is_element_interactive_total by blast
  obtain found where f: "unique_loop pg (insert (obj_id e) seen) es = Inr found"
    "\<forall>w \<in> set found. w \<in> set es \<and> is_element_interactive_body pg (node w) = Inr True"
    using Cons [of "insert (obj_id e) seen"] by blast
  obtain found' where f': "unique_loop pg seen es = Inr found'"
    "\<forall>w \<in> set found'. w \<in> set es \<and> is_element_interactive_body pg (node w) = Inr True"
    using Cons [of seen] by blast
  show ?case
  proof (cases "obj_id e \<in> seen")
    case True
    with f' show ?thesis by simp
  next
    case False
    have "b \<Longrightarrow> is_element_interactive_body pg (node e) = Inr True"
      using b is_element_interactive_True by simp
    with False b f show ?thesis
      by (auto simp: Let_def bind_res_def)
  qed
qed

lemma wrap_node: "map node (wrap heap nodes) = nodes"
proof -
  have "map node (wrap heap nodes) = map snd (enumerate heap nodes)"
    by (simp add: wrap_def case_prod_beta comp_def)
  then show ?thesis
    by (simp add: map_snd_enumerate)
qed

lemma wrap_obj_id: "map obj_id (wrap heap nodes) = [heap..<heap + length nodes]"
proof -
  have "map obj_id (wrap heap nodes) = map fst (enumerate heap nodes)"
    by (simp add: wrap_def case_prod_beta comp_def)
  then show ?thesis
    by (simp add: map_fst_enumerate)
qed

lemma collect_props:
  assumes "map obj_id elements = [h0..<heap]" and "h0 \<le> heap"
  shows "map node (fst (collect pg sels elements heap))
           = map node elements @ concat (map (matches pg) sels)
       \<and> map obj_id (fst (collect pg sels elements heap))
           = [h0..<snd (collect pg sels elements heap)]"
  using assms
proof (induction sels arbitrary: elements heap)
  case Nil
  then show ?case by simp
next
  case (Cons sel sels)
  show ?case
  proof (cases "find_elements pg sel")
    case (Inl e)
    with Cons show ?thesis
      by (simp add: matches_def)
  next
    case (Inr found)
    have "[h0..<heap + length found] = [h0..<heap] @ [heap..<heap + length found]"
      using Cons.prems(2) by (rule upt_add_eq_append)
    then have ids: "map obj_id (elements @ wrap heap found) = [h0..<heap + length found]"
      using Cons.prems(1) by (simp add: wrap_obj_id)
    have "h0 \<le> heap + length found"
      using Cons.prems by simp
    from Cons.IH [OF ids this] Inr show ?thesis
      by (simp add: matches_def wrap_node)
  qed
qed

lemma unique_loop_fresh:
  assumes "distinct (map obj_id es)" and "\<forall>e \<in> set es. obj_id e \<notin> seen"
  shows "unique_loop pg seen es = Inr (filter (\<lambda>e. is_element_interactive pg (node e) = Inr True) es)"
  using assms
proof (induction es arbitrary: seen)
  case Nil
  show ?case by simp
next
  case (Cons e es)
  obtain b where b: "is_element_interactive pg (node e) = Inr b"
    using is_element_interactive_total by blast
  have "unique_loop pg (insert (obj_id e) seen) es
        = Inr (filter (\<lambda>e. is_element_interactive pg (node e) = Inr True) es)"
    using Cons.prems by (intro Cons.IH) (auto simp: image_iff)
  with Cons.prems b show ?case
    by (simp add: Let_def bind_res_def)
qed

lemma find_interactive_elements_every_match:
  "\<exists>found. fst (find_interactive_elements pg heap) = Inr found
     \<and> map node found
         = filter (\<lambda>n. is_element_interactive pg n = Inr True) (concat (map (matches pg) selectors))"
proof -
  let ?es = "fst (collect pg selectors [] heap)"
  have props: "map node ?es = concat (map (matches pg) selectors)"
    "map obj_id ?es = [heap..<snd (collect pg selectors [] heap)]"
    using collect_props [of "[]" heap heap pg selectors] by simp_all
  have "distinct (map obj_id ?es)"
    unfolding props(2) by simp
  then have "unique_loop pg {} ?es
             = Inr (filter (\<lambda>e. is_element_interactive pg (node e) = Inr True) ?es)"
    by (intro unique_loop_fresh) simp_all
  moreover have "map node (filter (\<lambda>e. is_element_interactive pg (node e) = Inr True) ?es)
                 = filter (\<lambda>n. is_element_interactive pg n = Inr True) (map node ?es)"
    by (simp add: filter_map comp_def)
  ultimately show ?thesis
    unfolding props(1) [symmetric]
    by (simp add: find_interactive_elements_def case_prod_beta)
qed

lemma demo_page_found:
  "fst (find_interactive_elements demo_page 0)
     = Inr [\<lparr>obj_id = 0, node = 1\<rparr>, \<lparr>obj_id = 3, node = 1\<rparr>]"
  by code_simp

text \<open>
  C6. The code does not de-duplicate by node. On the demonstration page the Submit button
  (node 1) matches the selectors \<^verbatim>\<open>button:not([disabled])\<close> and
  \<^verbatim>\<open>[class*='btn']:not([disabled])\<close>; the result holds two entries that refer to that one
  node. (In general, by \<open>find_interactive_elements_every_match\<close>, the result holds one
  entry per match of a selector, since the identities compared are those of freshly built
  wrapper objects.)
\<close>

theorem find_interactive_elements_duplicate_node:
  "fst (find_interactive_elements demo_page 0)
     = Inr [\<lparr>obj_id = 0, node = 1\<rparr>, \<lparr>obj_id = 3, node = 1\<rparr>]
   \<and> \<not> distinct (map node [\<lparr>obj_id = 0, node = 1\<rparr>, \<lparr>obj_id = 3, node = 1\<rparr>])"
  using demo_page_found by simp

text \<open>
  C7. When the body of the interactivity test raises the stale-reference exception, the
  test returns \<^verbatim>\<open>False\<close>; the test never raises; and \<^verbatim>\<open>find_interactive_elements\<close> always
  returns a list, never an exception, each entry of which passed the test with \<^verbatim>\<open>True\<close>.
\<close>

theorem stale_element_never_escapes:
  "(is_element_interactive_body pg e = Inl StaleElementReferenceException
      \<longrightarrow> is_element_interactive pg e = Inr False)
   \<and> (\<exists>b. is_element_interactive pg e = Inr b)
   \<and> (\<exists>found. fst (find_interactive_elements pg heap) = Inr found
         \<and> (\<forall>w \<in> set found. is_element_interactive_body pg (node w) = Inr True))"
proof -
  have "is_element_interactive pg e = Inr False"
    if "is_element_interactive_body pg e = Inl StaleElementReferenceException"
    using that by (simp add: is_element_interactive_def try_except_def)
  moreover obtain found where
    "unique_loop pg {} (fst (collect pg selectors [] heap)) = Inr found"
    "\<forall>w \<in> set found. is_element_interactive_body pg (node w) = Inr True"
    using unique_loop_total [of pg "{}" "fst (collect pg selectors [] heap)"] by blast
  then have "\<exists>found. fst (find_interactive_elements pg heap) = Inr found
         \<and> (\<forall>w \<in> set found. is_element_interactive_body pg (node w) = Inr True)"
    by (auto simp: find_interactive_elements_def case_prod_beta)
  ultimately show ?thesis
    using is_element_interactive_total by blast
qed

theorem stale_element_never_escapes_witness:
  "is_element_interactive_body demo_page 3 = Inl StaleElementReferenceException
   \<and> is_element_interactive demo_page 3 = Inr False
   \<and> (\<exists>found. fst (find_interactive_elements demo_page 0) = Inr found
         \<and> \<lparr>obj_id = 0, node = 1\<rparr> \<in> set found
         \<and> is_element_interactive_body demo_page 1 = Inr True)"
proof -
  have stale: "is_element_interactive_body demo_page 3 = Inl StaleElementReferenceException"
    by (simp add: is_element_interactive_body_def demo_page_def bind_res_def)
  obtain found where found: "fst (find_interactive_elements demo_page 0) = Inr found"
    "\<forall>w \<in> set found. is_element_interactive_body demo_page (node w) = Inr True"
    and false: "is_element_interactive demo_page 3 = Inr False"
    using stale_element_never_escapes [of demo_page 3 0] stale by blast
  from found(1) have mem: "\<lparr>obj_id = 0, node = 1\<rparr> \<in> set found"
    unfolding demo_page_found by auto
  with found(2) have "is_element_interactive_body demo_page 1 = Inr True"
    by fastforce
  with stale false found(1) mem show ?thesis
    by blast
qed

section \<open>Properties of session cleanup\<close>

lemma emit_trace [simp]: "trace (emit c w) = trace w @ [c]"
  by (cases c) (simp_all add: emit_def Let_def)

lemma emit_reads [simp]: "reads (emit c w) = reads w" "url_reads (emit c w) = url_reads w"
  by (cases c; simp add: emit_def Let_def)+

lemma emit_alert_text [simp]: "c \<noteq> AlertAccept \<Longrightarrow> alert_text (emit c w) = alert_text w"
  by (cases c) (simp_all add: emit_def Let_def)

lemma cleanup_keeps_session: "fst (snd (cleanup self w)) = self"
  by (simp add: cleanup_def Let_def split: option.split sum.split)

text \<open>
  After a first call that returned normally for a session with a driver handle, a second
  call leaves the session as it is, logs the session data again when monitoring is on,
  sends \<^verbatim>\<open>quit\<close> again and returns what that \<^verbatim>\<open>quit\<close> returns. Only a session without
  a handle makes \<^verbatim>\<open>cleanup\<close> do nothing.
\<close>

lemma cleanup_second_call_repeats:
  assumes "driver self = Some d"
    and "cleanup self w = (Inr (), self1, w1)"
  shows "self1 = self
       \<and> fst (snd (cleanup self1 w1)) = self1
       \<and> fst (cleanup self1 w1) = quit_outcome w1 (quits w1)
       \<and> trace (snd (snd (cleanup self1 w1)))
           = trace w1
             @ (if enable_monitoring self then [Log (''Session data: '' @ session_id self)] else [])
             @ [Quit]
             @ (case quit_outcome w1 (quits w1) of
                  Inl e \<Rightarrow> []
                | Inr u \<Rightarrow> [Log (''Session '' @ session_id self @ '' ended'')])"
proof -
  have self1: "self1 = self"
    using assms(2) cleanup_keeps_session [of self w] by simp
  have qo: "quit_outcome (emit c w') = quit_outcome w'" "quits (emit (Log s) w') = quits w'"
    for c s w'
    by (cases c; simp add: emit_def Let_def)+
  show ?thesis
    unfolding self1 using assms(1)
    by (cases "quit_outcome w1 (quits w1)"; cases "enable_monitoring self")
       (simp_all add: cleanup_def Let_def qo)
qed

lemma cleanup_without_driver:
  "driver self = None \<Longrightarrow> cleanup self w = (Inr (), self, w)"
  by (simp add: cleanup_def)

text \<open>
  C8. The code does not make the second call a no-op. \<^verbatim>\<open>cleanup\<close> tests \<^verbatim>\<open>self.driver\<close>
  but never clears it, so after a first call that completed, a second call finds the
  handle still set, logs the session data again and sends \<^verbatim>\<open>quit\<close> to the driver again.
  (It is so for every session with a driver handle, by \<open>cleanup_second_call_repeats\<close>.)
\<close>

theorem cleanup_twice_quits_again:
  "fst (cleanup demo_session demo_world) = Inr ()
   \<and> fst (snd (cleanup demo_session demo_world)) = demo_session
   \<and> trace (snd (snd (cleanup demo_session demo_world)))
       = [Log ''Session data: 0123456789abcdef'', Quit, Log ''Session 0123456789abcdef ended'']
   \<and> fst (cleanup demo_session (snd (snd (cleanup demo_session demo_world)))) = Inr ()
   \<and> trace (snd (snd (cleanup demo_session (snd (snd (cleanup demo_session demo_world))))))
       = trace (snd (snd (cleanup demo_session demo_world)))
         @ [Log ''Session data: 0123456789abcdef'', Quit, Log ''Session 0123456789abcdef ended'']"
  by (simp add: cleanup_def demo_session_def demo_world_def emit_def Let_def)

section \<open>Properties of post-click handling\<close>

lemma handle_alert_effects:
  "\<exists>cs. trace (fst (handle_alert r w)) = trace w @ cs
        \<and> set cs \<subseteq> {AlertAccept} \<union> range Sleep \<union> (\<lambda>t. Log (''Alert detected: '' @ t)) ` UNIV"
  "reads (fst (handle_alert r w)) = reads w"
  "url_reads (fst (handle_alert r w)) = url_reads w"
  by (cases "alert_text w"; simp add: handle_alert_def)+

text \<open>
  C9. When the two reads of the current URL in the post-click handler return the same
  result, the handler reports no navigation: among the commands it issues there is no
  \<^verbatim>\<open>back\<close>, no log line of a navigation and none of a navigation back, and it makes no
  draw for the decision to go back (the random source is left as the alert handling
  left it).
\<close>

theorem post_click_never_detects_navigation:
  assumes "url_reads w (reads w) = url_reads w (Suc (reads w))"
  shows "\<exists>cs. trace (fst (handle_post_click r w)) = trace w @ cs
           \<and> Back \<notin> set cs
           \<and> (\<forall>u. Log (''Navigated to: '' @ u) \<notin> set cs)
           \<and> Log ''Navigated back'' \<notin> set cs
           \<and> snd (handle_post_click r w)
               = snd (handle_alert (skip 1 r) (emit (Sleep (uniform 0.5 1.5 (r 0))) w))"
proof -
  let ?w1 = "emit (Sleep (uniform 0.5 1.5 (r 0))) w"
  let ?a = "handle_alert (skip 1 r) ?w1"
  obtain cs where cs: "trace (fst ?a) = trace ?w1 @ cs"
    "set cs \<subseteq> {AlertAccept} \<union> range Sleep \<union> (\<lambda>t. Log (''Alert detected: '' @ t)) ` UNIV"
    using handle_alert_effects(1) by blast
  have rd: "reads (fst ?a) = reads w" "url_reads (fst ?a) = url_reads w"
    by (simp_all add: handle_alert_effects)
  have clean: "Back \<notin> set cs" "Log (''Navigated to: '' @ u) \<notin> set cs"
    "Log ''Navigated back'' \<notin> set cs" for u
    using cs(2) by auto
  show ?thesis
  proof (cases "url_reads w (reads w)")
    case (Inl e)
    then have "handle_post_click r w
               = (emit (Log ''Post-click handling error'') ((fst ?a)\<lparr>reads := Suc (reads w)\<rparr>), snd ?a)"
      by (simp add: handle_post_click_def Let_def read_current_url_def case_prod_beta
            handle_alert_effects(2,3))
    then show ?thesis
      using cs(1) clean
      by (intro exI [of _ "Sleep (uniform 0.5 1.5 (r 0)) # cs @ [Log ''Post-click handling error'']"])
         simp
  next
    case (Inr url)
    with assms have second: "url_reads w (Suc (reads w)) = Inr url"
      by simp
    have "handle_post_click r w = ((fst ?a)\<lparr>reads := Suc (Suc (reads w))\<rparr>, snd ?a)"
      by (simp add: handle_post_click_def Let_def read_current_url_def case_prod_beta
            handle_alert_effects(2,3) Inr second)
    then show ?thesis
      using cs(1) clean
      by (intro exI [of _ "Sleep (uniform 0.5 1.5 (r 0)) # cs"]) simp
  qed
qed

theorem post_click_never_detects_navigation_witness:
  "url_reads demo_world (reads demo_world) = url_reads demo_world (Suc (reads demo_world))
   \<and> trace (fst (handle_post_click (\<lambda>_. 1 / 20) demo_world)) = [Sleep (11 / 20)]
   \<and> (\<exists>cs. trace (fst (handle_post_click (\<lambda>_. 1 / 20) demo_world)) = trace demo_world @ cs
          \<and> Back \<notin> set cs)"
proof -
  have same: "url_reads demo_world (reads demo_world)
              = url_reads demo_world (Suc (reads demo_world))"
    by (simp add: demo_world_def)
  have val: "trace (fst (handle_post_click (\<lambda>_. 1 / 20) demo_world)) = [Sleep (11 / 20)]"
    by (simp add: handle_post_click_def handle_alert_def read_current_url_def demo_world_def
          emit_def Let_def uniform_def)
  have "\<exists>cs. trace (fst (handle_post_click (\<lambda>_. 1 / 20) demo_world)) = trace demo_world @ cs
          \<and> Back \<notin> set cs"
    using post_click_never_detects_navigation [OF same, of "\<lambda>_. 1 / 20"] by blast
  with same val show ?thesis
    by blast
qed

text \<open>
  The branch is reached only when the URL changes between the two reads: then, with a
  draw below 0.3, the handler does go back.
\<close>

lemma post_click_goes_back_when_reads_differ:
  assumes "alert_text w = Inl NoAlertPresentException"
    and "url_reads w (reads w) = Inr u1" and "url_reads w (Suc (reads w)) = Inr u2"
    and "u1 \<noteq> u2" and "r 1 < 0.3"
  shows "Back \<in> set (trace (fst (handle_post_click r w)))"
  using assms
  by (simp add: handle_post_click_def handle_alert_def Let_def read_current_url_def skip_def)

section \<open>Properties of the input handler\<close>

lemma generate_realistic_text_type_update:
  "generate_realistic_text
     (pg\<lparr> get_attribute := (get_attribute pg)
            (element := (get_attribute pg element)(''type'' := v)) \<rparr>) r element
   = generate_realistic_text pg r element"
  by (simp add: generate_realistic_text_def cong: sum.case_cong)

text \<open>
  C10, as the code has it. For an input element whose type attribute is present, not
  empty, and other than text, email, password and search, the input handler issues no
  command at all: it returns normally with the world (the commands issued and every
  field's content) and the random source unchanged. A missing type attribute, and an empty
  one, is handled exactly as the type text.
\<close>

theorem handle_input_other_types_untouched:
  "(get_attribute pg element ''type'' = Inr (Some ty)
      \<and> ty \<notin> {[], ''text'', ''email'', ''password'', ''search''}
      \<longrightarrow> handle_input pg b r element w = (Inr (), w, r))
   \<and> (get_attribute pg element ''type'' \<in> {Inr None, Inr (Some [])}
      \<longrightarrow> handle_input pg b r element w
          = handle_input
              (pg\<lparr> get_attribute := (get_attribute pg)
                     (element := (get_attribute pg element)(''type'' := Inr (Some ''text''))) \<rparr>)
              b r element w)"
proof -
  let ?pg = "pg\<lparr> get_attribute := (get_attribute pg)
                     (element := (get_attribute pg element)(''type'' := Inr (Some ''text''))) \<rparr>"
  have other: "handle_input pg b r element w = (Inr (), w, r)"
    if "get_attribute pg element ''type'' = Inr (Some ty)"
      and "ty \<notin> {[], ''text'', ''email'', ''password'', ''search''}"
    using that by (simp add: handle_input_def or_empty_def Let_def)
  have as_text: "handle_input ?pg b r element w
              = (case generate_realistic_text pg r element of
                   (Inl e, r') \<Rightarrow> (Inl e, w, r')
                 | (Inr text, r') \<Rightarrow> type_like_human b element text r' w)"
    by (simp add: handle_input_def or_empty_def Let_def generate_realistic_text_type_update)
  have missing: "handle_input pg b r element w = handle_input ?pg b r element w"
    if "get_attribute pg element ''type'' \<in> {Inr None, Inr (Some [])}"
    unfolding as_text using that by (auto simp: handle_input_def or_empty_def Let_def)
  show ?thesis
    using other missing by blast
qed

theorem handle_input_other_types_untouched_witness:
  "get_attribute (typed_page (Some ''checkbox'')) 1 ''type'' = Inr (Some ''checkbox'')
   \<and> ''checkbox'' \<notin> {[], ''text'', ''email'', ''password'', ''search''}
   \<and> fst (handle_input (typed_page (Some ''checkbox'')) demo_behavior (\<lambda>_. 1 / 2) 1 demo_world)
       = Inr ()
   \<and> trace (fst (snd (handle_input (typed_page (Some ''checkbox'')) demo_behavior
                         (\<lambda>_. 1 / 2) 1 demo_world))) = []
   \<and> field_content (fst (snd (handle_input (typed_page (Some ''checkbox'')) demo_behavior
                         (\<lambda>_. 1 / 2) 1 demo_world))) 1 = ''old''"
proof -
  have ty: "get_attribute (typed_page (Some ''checkbox'')) 1 ''type'' = Inr (Some ''checkbox'')"
    by (simp add: typed_page_def)
  have other: "''checkbox'' \<notin> {[], ''text'', ''email'', ''password'', ''search''}"
    by simp
  have "handle_input (typed_page (Some ''checkbox'')) demo_behavior (\<lambda>_. 1 / 2) 1 demo_world
        = (Inr (), demo_world, \<lambda>_. 1 / 2)"
    using handle_input_other_types_untouched
            [of "typed_page (Some ''checkbox'')" 1 "''checkbox''" demo_behavior "\<lambda>_. 1 / 2"
               demo_world] ty other
    by blast
  then show ?thesis
    using ty other by (simp add: demo_world_def)
qed

text \<open>
  The claim as written fails for a type attribute that is declared but empty: it is none
  of the four kinds, yet the field is cleared and text is typed into it.
\<close>

theorem handle_input_empty_type_counterexample:
  "get_attribute (typed_page (Some [])) 1 ''type'' = Inr (Some [])
   \<and> [] \<notin> {''text'', ''email'', ''password'', ''search''}
   \<and> hd (trace (fst (snd (handle_input (typed_page (Some [])) demo_behavior
                             (\<lambda>_. 1 / 2) 1 demo_world)))) = Clear 1
   \<and> field_content (fst (snd (handle_input (typed_page (Some [])) demo_behavior
                                 (\<lambda>_. 1 / 2) 1 demo_world))) 1 = ''Test input 51''
   \<and> field_content demo_world 1 = ''old''"
  by code_simp

text \<open>
  Conversely, typing always starts by clearing the field, so for the kinds email, password
  and search the handler does issue commands.
\<close>

lemma type_chars_trace:
  "\<exists>cs. trace (fst (snd (type_chars b element str r w))) = trace w @ cs"
proof (induction str arbitrary: r w)
  case Nil
  show ?case by simp
next
  case (Cons c cs)
  let ?w1 = "emit (SendKeys element [c]) w"
  show ?case
  proof (cases "typing_speed b = 0")
    case True
    then show ?thesis by (simp add: Let_def)
  next
    case False
    obtain r' d where step: "type_chars b element (c # cs) r w
                             = type_chars b element cs r' (emit (Sleep d) ?w1)"
      using False by (cases "r 1 < 0.1") (simp_all add: Let_def)
    obtain ds where "trace (fst (snd (type_chars b element cs r' (emit (Sleep d) ?w1))))
                     = trace (emit (Sleep d) ?w1) @ ds"
      using Cons.IH by blast
    then show ?thesis
      unfolding step by simp
  qed
qed

lemma typing_starts_by_clearing:
  "\<exists>cs. trace (fst (snd (type_like_human b element str r w))) = trace w @ Clear element # cs"
proof -
  obtain cs where cs: "trace (fst (snd (type_chars b element str r (emit (Clear element) w))))
                   = trace (emit (Clear element) w) @ cs"
    using type_chars_trace by blast
  obtain x w2 r2 where t: "type_chars b element str r (emit (Clear element) w) = (x, w2, r2)"
    by (metis prod_cases3)
  with cs have w2: "trace w2 = trace w @ Clear element # cs"
    by simp
  show ?thesis
    by (cases x) (auto simp: type_like_human_def t w2)
qed

lemma handle_input_listed_kinds_clear:
  assumes "get_attribute pg element ''type'' = Inr (Some ty)"
    and "ty \<in> {''email'', ''password'', ''search''}"
  shows "\<exists>cs. trace (fst (snd (handle_input pg b r element w))) = trace w @ Clear element # cs"
  using assms
  by (auto simp: handle_input_def or_empty_def Let_def typing_starts_by_clearing)

end
